theory Spec2Isabelle
  imports Complex_Main
begin

section \<open>The automatic gain search of nrsc5 (src/main.c)\<close>

subsection \<open>C \<open>float\<close> values and the two comparisons the search makes\<close>

text \<open>
  The SNR handed to the callback is a C \<open>float\<close>. The search only compares such values
  (\<open>snr >= best_snr\<close>, \<open>snr < best_snr * 0.5\<close>), so a value is modelled by what the
  comparisons can see: a finite number, one of the two infinities, or a NaN. The finite
  numbers are taken from the reals, of which the representable ones are a subset.
  \<open>best_snr * 0.5\<close> is computed in \<open>double\<close>; halving a finite \<open>float\<close> is exact there,
  and so is the comparison after promotion, so no rounding appears in the model.
  Every ordered comparison with a NaN is false.
\<close>

datatype cfloat = Finite real | Pos_Inf | Neg_Inf | NaN

text \<open>The C comparison \<open>a >= b\<close>.\<close>

fun float_ge :: "cfloat \<Rightarrow> cfloat \<Rightarrow> bool" where
  "float_ge NaN _ = False"
| "float_ge _ NaN = False"
| "float_ge (Finite x) (Finite y) = (y \<le> x)"
| "float_ge Pos_Inf _ = True"
| "float_ge _ Neg_Inf = True"
| "float_ge _ _ = False"

text \<open>The C comparison \<open>a < b\<close>.\<close>

fun float_lt :: "cfloat \<Rightarrow> cfloat \<Rightarrow> bool" where
  "float_lt NaN _ = False"
| "float_lt _ NaN = False"
| "float_lt (Finite x) (Finite y) = (x < y)"
| "float_lt Pos_Inf _ = False"
| "float_lt _ Neg_Inf = False"
| "float_lt _ _ = True"

text \<open>The C expression \<open>a * 0.5\<close>.\<close>

fun float_half :: "cfloat \<Rightarrow> cfloat" where
  "float_half (Finite x) = Finite (x * 0.5)"
| "float_half Pos_Inf = Pos_Inf"
| "float_half Neg_Inf = Neg_Inf"
| "float_half NaN = NaN"

subsection \<open>The search state\<close>

text \<open>
  The file-level statics \<open>gain_list[128]\<close>, \<open>gain_index\<close>, \<open>gain_count\<close> and the
  function-level statics \<open>best_gain\<close>, \<open>best_snr\<close> of \<open>rtlsdr_snr_callback\<close>.
  The \<open>int\<close> variables are mathematical integers; the one addition the code makes,
  \<open>gain_index + 1\<close>, is checked against \<open>INT_MAX\<close> where it is made.
\<close>

record search_state =
  gain_list :: "int list"
  gain_index :: int
  gain_count :: int
  best_gain :: int
  best_snr :: cfloat

definition INT_MIN :: int where
  "INT_MIN = - 2147483648"

definition INT_MAX :: int where
  "INT_MAX = 2147483647"

text \<open>What a C execution of the callback can run into outside defined behaviour.\<close>

datatype cb_error = Out_Of_Bounds | Signed_Overflow

text \<open>The commands sent to the device and to the pipeline, in the order they are issued.\<close>

datatype event =
    Get_Tuner_Gains
  | Set_Snr_Callback
  | Set_Tuner_Gain int
  | Reset_Buffer
  | Read_Sync
  | Read_Async
  | Close_Device

text \<open>The array read \<open>gain_list[i]\<close>.\<close>

definition gain_at :: "int list \<Rightarrow> int \<Rightarrow> cb_error + int" where
  "gain_at gl i =
     (if 0 \<le> i \<and> i < int (length gl) then Inr (gl ! nat i) else Inl Out_Of_Bounds)"

text \<open>Static storage is zero-initialised.\<close>

definition initial_search :: search_state where
  "initial_search =
     \<lparr>gain_list = replicate 128 0, gain_index = 0, gain_count = 0,
      best_gain = 0, best_snr = Finite 0\<rparr>"

subsection \<open>\<open>rtlsdr_snr_callback\<close>\<close>

text \<open>Lines 60 to 64: \<open>// choose the best gain level\<close>.\<close>

definition choose_best :: "search_state \<Rightarrow> cfloat \<Rightarrow> search_state" where
  "choose_best s snr =
     (if float_ge snr (best_snr s)
      then s\<lparr>best_gain := gain_index s, best_snr := snr\<rparr>
      else s)"

text \<open>Lines 81 to 83: the gain of the current index is sent to the tuner, the buffer is
  reset, and \<open>result\<close> is returned. The return codes of the two device calls are ignored.\<close>

definition apply_gain :: "int \<Rightarrow> search_state \<Rightarrow> cb_error + (int \<times> search_state \<times> event list)" where
  "apply_gain result s =
     (case gain_at (gain_list s) (gain_index s) of
        Inl e \<Rightarrow> Inl e
      | Inr g \<Rightarrow> Inr (result, s, [Set_Tuner_Gain g, Reset_Buffer]))"

text \<open>
  The callback returns its \<open>int\<close> result, the statics as it leaves them and the device
  commands it issued. The two log calls write nothing the search reads, but their
  arguments \<open>gain_list[gain_index]\<close> and \<open>gain_list[best_gain]\<close> are evaluated.
\<close>

definition rtlsdr_snr_callback ::
  "search_state \<Rightarrow> cfloat \<Rightarrow> cb_error + (int \<times> search_state \<times> event list)" where
  "rtlsdr_snr_callback s snr =
     (if gain_count s = 0 then Inr (0, s, [])
      else
        let s1 = choose_best s snr in
        case gain_at (gain_list s1) (gain_index s1) of
          Inl e \<Rightarrow> Inl e
        | Inr _ \<Rightarrow>
            if gain_index s1 = INT_MAX then Inl Signed_Overflow
            else if gain_index s1 + 1 \<ge> gain_count s1 \<or> float_lt snr (float_half (best_snr s1))
            then
              (case gain_at (gain_list s1) (best_gain s1) of
                 Inl e \<Rightarrow> Inl e
               | Inr _ \<Rightarrow> apply_gain 0 (s1\<lparr>gain_index := best_gain s1, gain_count := 0\<rparr>))
            else apply_gain 1 (s1\<lparr>gain_index := gain_index s1 + 1\<rparr>))"

text \<open>
  The pipeline invokes the callback once for every SNR sample it completes. A run feeds a
  sequence of samples to successive invocations and collects the results, the final
  statics and all device commands.
\<close>

fun snr_callback_run ::
  "search_state \<Rightarrow> cfloat list \<Rightarrow> cb_error + (int list \<times> search_state \<times> event list)" where
  "snr_callback_run s [] = Inr ([], s, [])"
| "snr_callback_run s (x # xs) =
     (case rtlsdr_snr_callback s x of
        Inl e \<Rightarrow> Inl e
      | Inr (r, s1, c1) \<Rightarrow>
          (case snr_callback_run s1 xs of
             Inl e \<Rightarrow> Inl e
           | Inr (rs, s2, c2) \<Rightarrow> Inr (r # rs, s2, c1 @ c2)))"

text \<open>The results of a run, and the number of "continue" results (1) before the first
  "stop" result (0).\<close>

definition run_results :: "cb_error + (int list \<times> search_state \<times> event list) \<Rightarrow> int list" where
  "run_results out = (case out of Inl _ \<Rightarrow> [] | Inr (rs, _, _) \<Rightarrow> rs)"

fun continues_before_stop :: "int list \<Rightarrow> nat" where
  "continues_before_stop [] = 0"
| "continues_before_stop (r # rs) = (if r = 0 then 0 else Suc (continues_before_stop rs))"

text \<open>The state in which \<open>main\<close> starts a search over the first \<open>n\<close> entries of a table.\<close>

definition search_start :: "int \<Rightarrow> int list \<Rightarrow> search_state" where
  "search_start n tab = initial_search\<lparr>gain_list := tab, gain_count := n\<rparr>"

text \<open>
  A search in progress. \<open>main\<close> starts the callback in such a state and the callback keeps
  it until it concludes (lemmas \<open>searching_start\<close> and \<open>callback_searching\<close> below):
  the table has its 128 entries, the count is between 1 and 128, and
  \<open>0 \<le> best_gain \<le> gain_index < gain_count\<close>. In such a state the count is nonzero and
  every array read of the callback is in range.
\<close>

definition searching :: "search_state \<Rightarrow> bool" where
  "searching s \<longleftrightarrow>
     length (gain_list s) = 128 \<and> 0 \<le> best_gain s \<and> best_gain s \<le> gain_index s \<and>
     gain_index s < gain_count s \<and> gain_count s \<le> 128"

subsection \<open>The RTL-SDR branch of \<open>main\<close>, from the gain selection on (lines 406 to 441)\<close>

text \<open>
  What \<open>main\<close> holds at this point: the search statics, whether \<open>input.snr_cb\<close> is
  registered, and the commands issued so far.
\<close>

record main_state =
  search :: search_state
  snr_cb :: bool
  trace :: "event list"

text \<open>
  The device, as far as \<open>main\<close> observes it: the value \<open>rtlsdr_get_tuner_gains\<close> returns and
  the contents of \<open>gain_list\<close> after that call, the return codes of the other calls, and
  the blocks that successive \<open>rtlsdr_read_sync\<close> calls deliver. A block is given by the
  return code of its read and by the SNR samples the pipeline completes while it processes
  the block.
\<close>

record rtlsdr_env =
  tuner_gains_ret :: int
  tuner_gains_out :: "int list"
  set_gain_err :: int
  reset_err :: int
  sync_blocks :: "(int \<times> cfloat list) list"
  async_err :: int
  close_err :: int

text \<open>
  How a run of \<open>main\<close> can end before its \<open>return 0\<close>: a fatal exit, undefined behaviour in
  the callback, or the device delivering no further block while the read loop still waits
  for one (the blocks of the environment are a finite prefix of what the device sends).
\<close>

datatype stop = Fatal_Exit | Undefined_Behaviour cb_error | No_More_Blocks

type_synonym outcome = "(stop \<times> main_state) + main_state"

definition end_state :: "outcome \<Rightarrow> main_state" where
  "end_state out = (case out of Inl (_, st) \<Rightarrow> st | Inr st \<Rightarrow> st)"

definition and_then :: "outcome \<Rightarrow> (main_state \<Rightarrow> outcome) \<Rightarrow> outcome" where
  "and_then out f = (case out of Inl x \<Rightarrow> Inl x | Inr st \<Rightarrow> f st)"

definition emit :: "event \<Rightarrow> main_state \<Rightarrow> main_state" where
  "emit e st = st\<lparr>trace := trace st @ [e]\<rparr>"

text \<open>
  Modelled from the spec: \<open>FATAL_EXIT\<close> (a macro of defines.h, which is not among the
  sources). "Hardware configuration failures are fatal to the whole process": the pattern
  \<open>err = call(...); if (err) FATAL_EXIT(...)\<close> ends the run when the call returns nonzero.
\<close>

definition device_call :: "event \<Rightarrow> int \<Rightarrow> main_state \<Rightarrow> outcome" where
  "device_call e err st =
     (if err \<noteq> 0 then Inl (Fatal_Exit, emit e st) else Inr (emit e st))"

text \<open>
  Modelled from the spec: \<open>input_cb\<close> (src/input.c is not among the sources). The
  pipeline "invoke[s] the registered callback with the SNR value and caller context" for
  each SNR sample it completes; with no callback registered it invokes nothing.
\<close>

definition input_cb :: "cfloat list \<Rightarrow> main_state \<Rightarrow> outcome" where
  "input_cb snrs st =
     (if snr_cb st then
        (case snr_callback_run (search st) snrs of
           Inl e \<Rightarrow> Inl (Undefined_Behaviour e, st)
         | Inr (rs, s', cmds) \<Rightarrow> Inr (st\<lparr>search := s', trace := trace st @ cmds\<rparr>))
      else Inr st)"

text \<open>
  Modelled from the spec: \<open>input_init\<close> (also of src/input.c). A callback is registered
  by \<open>setSnrCallback\<close> only, so none is registered when the gain selection is entered.
  Nothing has been issued yet and the statics have their initial values.
\<close>

definition initial_main :: main_state where
  "initial_main = \<lparr>search = initial_search, snr_cb = False, trace = []\<rparr>"

text \<open>Lines 406 to 420. \<open>gain\<close> is the local variable of \<open>main\<close>: \<open>INT_MIN\<close> unless the
  \<open>-g\<close> option has stored another value.\<close>

definition select_gain :: "int \<Rightarrow> rtlsdr_env \<Rightarrow> main_state \<Rightarrow> outcome" where
  "select_gain gain env st =
     (if gain = INT_MIN then
        let st1 = emit Get_Tuner_Gains
              (st\<lparr>search := (search st)\<lparr>gain_list := tuner_gains_out env,
                                          gain_count := tuner_gains_ret env\<rparr>\<rparr>)
        in
          if gain_count (search st1) > 0 then
            let st2 = emit Set_Snr_Callback (st1\<lparr>snr_cb := True\<rparr>) in
            (case gain_at (gain_list (search st2)) 0 of
               Inl e \<Rightarrow> Inl (Undefined_Behaviour e, st2)
             | Inr g \<Rightarrow> device_call (Set_Tuner_Gain g) (set_gain_err env) st2)
          else Inr st1
      else device_call (Set_Tuner_Gain gain) (set_gain_err env) st)"

text \<open>Lines 425 to 435: \<open>while (gain_count)\<close>, one blocking read and one \<open>input_cb\<close> per
  iteration.\<close>

fun read_loop :: "main_state \<Rightarrow> (int \<times> cfloat list) list \<Rightarrow> outcome" where
  "read_loop st [] =
     (if gain_count (search st) = 0 then Inr st else Inl (No_More_Blocks, st))"
| "read_loop st ((err, snrs) # blocks) =
     (if gain_count (search st) = 0 then Inr st
      else and_then (and_then (device_call Read_Sync err st) (input_cb snrs))
             (\<lambda>st'. read_loop st' blocks))"

text \<open>Lines 406 to 435: the gain selection, the buffer reset and the read loop.\<close>

definition sync_phase :: "int \<Rightarrow> rtlsdr_env \<Rightarrow> outcome" where
  "sync_phase gain env =
     and_then (and_then
       (select_gain gain env initial_main)
       (device_call Reset_Buffer (reset_err env)))
       (\<lambda>st. read_loop st (sync_blocks env))"

text \<open>
  Lines 406 to 441: after the loop, \<open>rtlsdr_read_async\<close> and \<open>rtlsdr_close\<close>. The call of
  \<open>rtlsdr_read_async\<close> is one event; the blocks it delivers to \<open>input_cb\<close> before it
  returns are not followed further.
\<close>

definition main_rtlsdr :: "int \<Rightarrow> rtlsdr_env \<Rightarrow> outcome" where
  "main_rtlsdr gain env =
     and_then (and_then
       (sync_phase gain env)
       (device_call Read_Async (async_err env)))
       (device_call Close_Device (close_err env))"

subsection \<open>Vocabulary for the traces\<close>

text \<open>The commands the callback issues: a gain setting or a buffer reset.\<close>

definition gain_command :: "event \<Rightarrow> bool" where
  "gain_command e = (case e of Set_Tuner_Gain _ \<Rightarrow> True | Reset_Buffer \<Rightarrow> True | _ \<Rightarrow> False)"

text \<open>The events of the read loop: a blocking read or a command of the callback.\<close>

definition loop_event :: "event \<Rightarrow> bool" where
  "loop_event e = (e = Read_Sync \<or> gain_command e)"

text \<open>
  What \<open>main\<close> keeps true of the statics from the moment the callback is registered: the
  search is in progress or the count is zero.
\<close>

definition callback_ready :: "main_state \<Rightarrow> bool" where
  "callback_ready st \<longleftrightarrow>
     (snr_cb st \<longrightarrow> searching (search st) \<or> gain_count (search st) = 0)"

section \<open>Properties of the callback\<close>

subsection \<open>One invocation\<close>

lemma float_ge_refl: "x \<noteq> NaN \<Longrightarrow> float_ge x x"
  by (cases x) simp_all

lemma searching_active: "searching s \<Longrightarrow> gain_count s \<noteq> 0"
  by (auto simp: searching_def)

lemma choose_best_fields [simp]:
  "gain_list (choose_best s snr) = gain_list s"
  "gain_index (choose_best s snr) = gain_index s"
  "gain_count (choose_best s snr) = gain_count s"
  by (simp_all add: choose_best_def)

lemma choose_best_best_gain:
  "best_gain (choose_best s snr) = (if float_ge snr (best_snr s) then gain_index s else best_gain s)"
  by (simp add: choose_best_def)

lemma choose_best_best_snr:
  "best_snr (choose_best s snr) = (if float_ge snr (best_snr s) then snr else best_snr s)"
  by (simp add: choose_best_def)

lemma searching_choose_best: "searching s \<Longrightarrow> searching (choose_best s snr)"
  by (simp add: searching_def choose_best_best_gain)

lemma gain_at_in_range:
  "0 \<le> i \<Longrightarrow> i < int (length gl) \<Longrightarrow> gain_at gl i = Inr (gl ! nat i)"
  by (simp add: gain_at_def)

text \<open>The callback on a search in progress, branch by branch.\<close>

lemma callback_stop:
  assumes "searching s"
    and "gain_index s = gain_count s - 1 \<or> float_lt snr (float_half (best_snr (choose_best s snr)))"
  shows "rtlsdr_snr_callback s snr =
           Inr (0, (choose_best s snr)\<lparr>gain_index := best_gain (choose_best s snr), gain_count := 0\<rparr>,
                [Set_Tuner_Gain (gain_list s ! nat (best_gain (choose_best s snr))), Reset_Buffer])"
proof -
  have b: "searching (choose_best s snr)"
    using assms(1) by (rule searching_choose_best)
  from assms(1) have c: "gain_count s \<noteq> 0" "gain_index s \<noteq> INT_MAX"
    "0 \<le> gain_index s" "gain_index s < int (length (gain_list s))"
    by (auto simp: searching_def INT_MAX_def)
  from b have d: "0 \<le> best_gain (choose_best s snr)"
    "best_gain (choose_best s snr) < int (length (gain_list s))"
    by (auto simp: searching_def)
  from assms(2) have e: "gain_index s + 1 \<ge> gain_count s \<or> float_lt snr (float_half (best_snr (choose_best s snr)))"
    by auto
  show ?thesis
    using c d e by (simp add: rtlsdr_snr_callback_def apply_gain_def gain_at_in_range Let_def)
qed

lemma callback_continue:
  assumes "searching s"
    and "gain_index s \<noteq> gain_count s - 1"
    and "\<not> float_lt snr (float_half (best_snr (choose_best s snr)))"
  shows "rtlsdr_snr_callback s snr =
           Inr (1, (choose_best s snr)\<lparr>gain_index := gain_index s + 1\<rparr>,
                [Set_Tuner_Gain (gain_list s ! nat (gain_index s + 1)), Reset_Buffer])"
proof -
  from assms(1) have c: "gain_count s \<noteq> 0" "gain_index s \<noteq> INT_MAX"
    "0 \<le> gain_index s" "gain_index s < int (length (gain_list s))"
    by (auto simp: searching_def INT_MAX_def)
  from assms(1,2) have d: "\<not> gain_index s + 1 \<ge> gain_count s"
    "gain_index s + 1 < int (length (gain_list s))"
    by (auto simp: searching_def)
  show ?thesis
    using c d assms(3) by (simp add: rtlsdr_snr_callback_def apply_gain_def gain_at_in_range Let_def)
qed

lemma callback_concluded: "gain_count s = 0 \<Longrightarrow> rtlsdr_snr_callback s snr = Inr (0, s, [])"
  by (simp add: rtlsdr_snr_callback_def)

lemma callback_searching:
  assumes "searching s" and "rtlsdr_snr_callback s snr = Inr (r, s', cmds)"
  shows "(r = 1 \<and> searching s') \<or> (r = 0 \<and> gain_count s' = 0)"
proof (cases "gain_index s = gain_count s - 1 \<or> float_lt snr (float_half (best_snr (choose_best s snr)))")
  case True
  from callback_stop [OF assms(1) True] assms(2) show ?thesis by auto
next
  case False
  then have "gain_index s \<noteq> gain_count s - 1" "\<not> float_lt snr (float_half (best_snr (choose_best s snr)))"
    by auto
  from callback_continue [OF assms(1) this] assms(2)
  have "r = 1" "s' = (choose_best s snr)\<lparr>gain_index := gain_index s + 1\<rparr>" by auto
  moreover have "searching ((choose_best s snr)\<lparr>gain_index := gain_index s + 1\<rparr>)"
    using assms(1) \<open>gain_index s \<noteq> gain_count s - 1\<close>
    by (auto simp: searching_def choose_best_best_gain)
  ultimately show ?thesis by simp
qed

lemma searching_start:
  "1 \<le> n \<Longrightarrow> n \<le> 128 \<Longrightarrow> length tab = 128 \<Longrightarrow> searching (search_start n tab)"
  by (simp add: searching_def search_start_def initial_search_def)

subsection \<open>Runs\<close>

lemma run_concluded:
  "gain_count s = 0 \<Longrightarrow> snr_callback_run s snrs = Inr (replicate (length snrs) 0, s, [])"
  by (induction snrs) (simp_all add: callback_concluded)

lemma run_searching:
  assumes "searching s"
  shows "\<exists>rs s' cmds. snr_callback_run s snrs = Inr (rs, s', cmds) \<and>
           int (count_list rs 1) \<le> gain_count s - 1 - gain_index s \<and>
           (gain_count s - gain_index s \<le> int (length snrs) \<longrightarrow> gain_count s' = 0) \<and>
           (gain_count s' \<noteq> 0 \<longrightarrow>
              searching s' \<and> gain_count s' = gain_count s \<and>
              gain_index s' = gain_index s + int (length snrs) \<and>
              rs = replicate (length snrs) 1)"
  using assms
proof (induction snrs arbitrary: s)
  case Nil
  then show ?case by (simp add: searching_def)
next
  case (Cons x xs)
  show ?case
  proof (cases "gain_index s = gain_count s - 1 \<or> float_lt x (float_half (best_snr (choose_best s x)))")
    case True
    let ?s1 = "(choose_best s x)\<lparr>gain_index := best_gain (choose_best s x), gain_count := 0\<rparr>"
    have "snr_callback_run ?s1 xs = Inr (replicate (length xs) 0, ?s1, [])"
      by (rule run_concluded) simp
    with callback_stop [OF Cons.prems True] Cons.prems show ?thesis
      by (simp add: searching_def)
  next
    case False
    then have f: "gain_index s \<noteq> gain_count s - 1"
      "\<not> float_lt x (float_half (best_snr (choose_best s x)))"
      by auto
    let ?s1 = "(choose_best s x)\<lparr>gain_index := gain_index s + 1\<rparr>"
    note step = callback_continue [OF Cons.prems f]
    from callback_searching [OF Cons.prems step] have s1: "searching ?s1" by simp
    from Cons.IH [OF s1] obtain rs s' cmds where
      run: "snr_callback_run ?s1 xs = Inr (rs, s', cmds)" and
      cnt: "int (count_list rs 1) \<le> gain_count ?s1 - 1 - gain_index ?s1" and
      fin: "gain_count ?s1 - gain_index ?s1 \<le> int (length xs) \<longrightarrow> gain_count s' = 0" and
      act: "gain_count s' \<noteq> 0 \<longrightarrow>
              searching s' \<and> gain_count s' = gain_count ?s1 \<and>
              gain_index s' = gain_index ?s1 + int (length xs) \<and>
              rs = replicate (length xs) 1"
      by blast
    from step run have "snr_callback_run s (x # xs) =
        Inr (1 # rs, s', [Set_Tuner_Gain (gain_list s ! nat (gain_index s + 1)), Reset_Buffer] @ cmds)"
      by simp
    moreover from cnt have "int (count_list (1 # rs) 1) \<le> gain_count s - 1 - gain_index s"
      by simp
    moreover from fin have "gain_count s - gain_index s \<le> int (length (x # xs)) \<longrightarrow> gain_count s' = 0"
      by simp
    moreover from act have "gain_count s' \<noteq> 0 \<longrightarrow>
              searching s' \<and> gain_count s' = gain_count s \<and>
              gain_index s' = gain_index s + int (length (x # xs)) \<and>
              1 # rs = replicate (length (x # xs)) 1"
      by simp
    ultimately show ?thesis by blast
  qed
qed

subsection \<open>The trace of \<open>main\<close>\<close>

lemma end_state_simps [simp]:
  "end_state (Inl (why, st)) = st" "end_state (Inr st) = st"
  by (simp_all add: end_state_def)

lemma and_then_simps [simp]:
  "and_then (Inl x) f = Inl x" "and_then (Inr st) f = f st"
  by (simp_all add: and_then_def)

lemma device_call_cases:
  "device_call e err st = Inr (emit e st) \<or> device_call e err st = Inl (Fatal_Exit, emit e st)"
  by (simp add: device_call_def)

lemma emit_fields [simp]:
  "trace (emit e st) = trace st @ [e]" "search (emit e st) = search st"
  "snr_cb (emit e st) = snr_cb st"
  by (simp_all add: emit_def)

lemma device_call_end [simp]: "end_state (device_call e err st) = emit e st"
  by (simp add: device_call_def)

lemma callback_commands:
  "rtlsdr_snr_callback s snr = Inr (r, s', cmds) \<Longrightarrow> list_all gain_command cmds"
  by (auto simp: rtlsdr_snr_callback_def apply_gain_def Let_def gain_command_def
           split: if_splits sum.splits)

lemma run_commands:
  "snr_callback_run s snrs = Inr (rs, s', cmds) \<Longrightarrow> list_all gain_command cmds"
proof (induction snrs arbitrary: s rs cmds)
  case Nil
  then show ?case by simp
next
  case (Cons x xs)
  from Cons.prems obtain r s1 c1 rs' c2 where
    step: "rtlsdr_snr_callback s x = Inr (r, s1, c1)" and
    rest: "snr_callback_run s1 xs = Inr (rs', s', c2)" and
    cmds: "cmds = c1 @ c2"
    by (auto split: sum.splits)
  from callback_commands [OF step] Cons.IH [OF rest] cmds show ?case
    by simp
qed

lemma input_cb_trace:
  "\<exists>cmds. trace (end_state (input_cb snrs st)) = trace st @ cmds \<and> list_all gain_command cmds"
  by (auto simp: input_cb_def split: sum.splits dest: run_commands)

lemma read_loop_exit:
  "read_loop st blocks = Inr st' \<Longrightarrow> gain_count (search st') = 0"
proof (induction st blocks rule: read_loop.induct)
  case (1 st)
  then show ?case by (simp split: if_splits)
next
  case (2 st err snrs blocks)
  show ?case
  proof (cases "gain_count (search st) = 0")
    case True
    with "2.prems" show ?thesis by simp
  next
    case False
    with "2.prems" obtain st1 st2 where
      "device_call Read_Sync err st = Inr st1" "input_cb snrs st1 = Inr st2"
      "read_loop st2 blocks = Inr st'"
      by (auto simp: and_then_def split: sum.splits)
    with "2.IH" [OF False] show ?thesis by simp
  qed
qed

lemma read_loop_trace:
  "\<exists>evs. trace (end_state (read_loop st blocks)) = trace st @ evs \<and> list_all loop_event evs"
proof (induction st blocks rule: read_loop.induct)
  case (1 st)
  then show ?case by simp
next
  case (2 st err snrs blocks)
  show ?case
  proof (cases "gain_count (search st) = 0")
    case True
    then show ?thesis by simp
  next
    case False
    note active = this
    show ?thesis
    proof (cases "device_call Read_Sync err st")
      case (Inl x)
      with active device_call_end [of Read_Sync err st] show ?thesis
        by (cases x) (simp add: loop_event_def)
    next
      case (Inr st1)
      with device_call_end [of Read_Sync err st] have st1: "st1 = emit Read_Sync st"
        by simp
      from input_cb_trace [of snrs st1] obtain cmds where
        c: "trace (end_state (input_cb snrs st1)) = trace st1 @ cmds" "list_all gain_command cmds"
        by blast
      show ?thesis
      proof (cases "input_cb snrs st1")
        case (Inl y)
        with active Inr c st1 show ?thesis
          by (cases y) (auto simp: loop_event_def list_all_iff)
      next
        case (Inr st2)
        from "2.IH" [OF active, of st2]
        obtain evs where
          e: "trace (end_state (read_loop st2 blocks)) = trace st2 @ evs" "list_all loop_event evs"
          by blast
        from active \<open>device_call Read_Sync err st = Inr st1\<close> Inr c e st1
        have "trace (end_state (read_loop st ((err, snrs) # blocks))) =
                trace st @ (Read_Sync # cmds @ evs)"
          by simp
        moreover from c(2) e(2) have "list_all loop_event (Read_Sync # cmds @ evs)"
          by (auto simp: loop_event_def list_all_iff)
        ultimately show ?thesis by blast
      qed
    qed
  qed
qed

lemma select_gain_trace:
  "list_all (\<lambda>e. e \<noteq> Read_Async \<and> e \<noteq> Read_Sync)
     (trace (end_state (select_gain gain env initial_main)))"
  by (simp add: select_gain_def Let_def initial_main_def device_call_def gain_at_def)

lemma sync_phase_trace:
  "Read_Async \<notin> set (trace (end_state (sync_phase gain env)))"
proof -
  let ?a = "select_gain gain env initial_main"
  have a: "Read_Async \<notin> set (trace (end_state ?a))"
    using select_gain_trace [of gain env] by (auto simp: list_all_iff)
  show ?thesis
  proof (cases ?a)
    case (Inl x)
    with a show ?thesis by (cases x) (simp add: sync_phase_def)
  next
    case (Inr st1)
    with a have a1: "Read_Async \<notin> set (trace st1)" by simp
    show ?thesis
    proof (cases "device_call Reset_Buffer (reset_err env) st1")
      case (Inl y)
      with device_call_end [of Reset_Buffer "reset_err env" st1] a1 Inr show ?thesis
        by (cases y) (simp add: sync_phase_def)
    next
      case b: (Inr st2)
      with device_call_end [of Reset_Buffer "reset_err env" st1] a1
      have a2: "Read_Async \<notin> set (trace st2)" by simp
      from read_loop_trace [of st2 "sync_blocks env"] obtain evs where
        "trace (end_state (read_loop st2 (sync_blocks env))) = trace st2 @ evs"
        "list_all loop_event evs"
        by blast
      with a2 have "Read_Async \<notin> set (trace (end_state (read_loop st2 (sync_blocks env))))"
        by (auto simp: list_all_iff loop_event_def gain_command_def)
      with Inr b show ?thesis by (simp add: sync_phase_def)
    qed
  qed
qed

lemma sync_phase_exit:
  "sync_phase gain env = Inr st \<Longrightarrow> gain_count (search st) = 0"
  by (auto simp: sync_phase_def and_then_def split: sum.splits dest: read_loop_exit)

lemma main_rtlsdr_failed:
  "sync_phase gain env = Inl x \<Longrightarrow> main_rtlsdr gain env = Inl x"
  by (simp add: main_rtlsdr_def)

lemma main_rtlsdr_trace:
  "sync_phase gain env = Inr st \<Longrightarrow>
     search (end_state (main_rtlsdr gain env)) = search st \<and>
     (trace (end_state (main_rtlsdr gain env)) = trace st @ [Read_Async] \<or>
      trace (end_state (main_rtlsdr gain env)) = trace st @ [Read_Async, Close_Device])"
  by (simp add: main_rtlsdr_def device_call_def)

subsection \<open>\<open>main\<close> stays within defined behaviour\<close>

text \<open>
  When the tuner fills the 128 entries of \<open>gain_list\<close> and reports at most 128 gains, every
  invocation of the callback that \<open>main\<close> causes starts in a state where the search is in
  progress or concluded, and no run of \<open>main\<close> ends in undefined behaviour.
\<close>

lemma run_ready:
  assumes "searching s \<or> gain_count s = 0"
  shows "\<exists>rs s' cmds. snr_callback_run s snrs = Inr (rs, s', cmds) \<and>
           (searching s' \<or> gain_count s' = 0)"
  using assms
proof
  assume "searching s"
  from run_searching [OF this, of snrs] show ?thesis by blast
next
  assume "gain_count s = 0"
  with run_concluded [OF this, of snrs] show ?thesis by simp
qed

lemma input_cb_ready:
  assumes "callback_ready st"
  shows "\<exists>st'. input_cb snrs st = Inr st' \<and> callback_ready st'"
proof (cases "snr_cb st")
  case True
  with assms have "searching (search st) \<or> gain_count (search st) = 0"
    by (simp add: callback_ready_def)
  from run_ready [OF this, of snrs] True show ?thesis
    by (auto simp: input_cb_def callback_ready_def)
next
  case False
  then show ?thesis by (simp add: input_cb_def callback_ready_def)
qed

lemma read_loop_defined:
  "callback_ready st \<Longrightarrow> read_loop st blocks \<noteq> Inl (Undefined_Behaviour e, st')"
proof (induction st blocks rule: read_loop.induct)
  case (1 st)
  then show ?case by simp
next
  case (2 st err snrs blocks)
  show ?case
  proof (cases "gain_count (search st) = 0")
    case True
    then show ?thesis by simp
  next
    case False
    show ?thesis
    proof (cases "err = 0")
      case e: False
      with False show ?thesis by (simp add: device_call_def)
    next
      case e: True
      from "2.prems" have "callback_ready (emit Read_Sync st)"
        by (simp add: callback_ready_def)
      from input_cb_ready [OF this, of snrs] obtain st2 where
        s2: "input_cb snrs (emit Read_Sync st) = Inr st2" "callback_ready st2"
        by blast
      from "2.IH" [OF False s2(2)] False e s2(1) show ?thesis
        by (simp add: device_call_def)
    qed
  qed
qed

lemma select_gain_ready:
  assumes "length (tuner_gains_out env) = 128" and "tuner_gains_ret env \<le> 128"
  shows "select_gain gain env initial_main \<noteq> Inl (Undefined_Behaviour e, st') \<and>
         callback_ready (end_state (select_gain gain env initial_main))"
proof -
  from assms(1) have ne: "tuner_gains_out env \<noteq> []"
    by auto
  have "0 < tuner_gains_ret env \<Longrightarrow>
      searching (search_start (tuner_gains_ret env) (tuner_gains_out env))"
    using assms by (intro searching_start) simp_all
  with ne show ?thesis
    by (simp add: select_gain_def Let_def initial_main_def device_call_def gain_at_def
          search_start_def emit_def callback_ready_def)
qed

lemma main_rtlsdr_defined:
  assumes "length (tuner_gains_out env) = 128" and "tuner_gains_ret env \<le> 128"
  shows "main_rtlsdr gain env \<noteq> Inl (Undefined_Behaviour e, st')"
proof (cases "select_gain gain env initial_main")
  case (Inl x)
  with select_gain_ready [OF assms, of gain e st'] show ?thesis
    by (simp add: main_rtlsdr_def sync_phase_def)
next
  case (Inr st1)
  with select_gain_ready [OF assms, of gain e st'] have r1: "callback_ready st1"
    by simp
  show ?thesis
  proof (cases "reset_err env = 0")
    case False
    with Inr show ?thesis
      by (simp add: main_rtlsdr_def sync_phase_def device_call_def)
  next
    case True
    from r1 have r2: "callback_ready (emit Reset_Buffer st1)"
      by (simp add: callback_ready_def)
    show ?thesis
    proof (cases "read_loop (emit Reset_Buffer st1) (sync_blocks env)")
      case l: (Inl y)
      with read_loop_defined [OF r2, of "sync_blocks env" e st'] Inr True show ?thesis
        by (simp add: main_rtlsdr_def sync_phase_def device_call_def)
    next
      case l: (Inr st3)
      with Inr True show ?thesis
        by (simp add: main_rtlsdr_def sync_phase_def device_call_def)
    qed
  qed
qed

subsection \<open>Evaluation on concrete inputs\<close>

lemmas callback_eval = search_start_def initial_search_def rtlsdr_snr_callback_def choose_best_def
  apply_gain_def gain_at_def INT_MAX_def Let_def

lemmas main_eval = main_rtlsdr_def sync_phase_def select_gain_def device_call_def input_cb_def
  emit_def initial_main_def INT_MIN_def

section \<open>The claims\<close>

text \<open>
  Claim C1, as the code has it. From the initial state, over a table of five gains, the
  metrics 5, 8, 10, 9, 4 arrive at the indices 0 to 4. After the third sample the best
  index is 2 with metric 10 and the search goes on at index 3. The fifth sample arrives at
  the last index and concludes the search: the final index is 2 and the count is zero.
  The five invocations return 1, 1, 1, 1, 0: four "continue" results precede the "stop",
  one for each of the indices 0 to 3.
\<close>

theorem gain_search_trace:
  "snr_callback_run (search_start 5 (g0 # g1 # g2 # g3 # g4 # rest))
       [Finite 5, Finite 8, Finite 10] =
     Inr ([1, 1, 1],
          \<lparr>gain_list = g0 # g1 # g2 # g3 # g4 # rest, gain_index = 3, gain_count = 5,
           best_gain = 2, best_snr = Finite 10\<rparr>,
          [Set_Tuner_Gain g1, Reset_Buffer, Set_Tuner_Gain g2, Reset_Buffer,
           Set_Tuner_Gain g3, Reset_Buffer]) \<and>
   snr_callback_run (search_start 5 (g0 # g1 # g2 # g3 # g4 # rest))
       [Finite 5, Finite 8, Finite 10, Finite 9, Finite 4] =
     Inr ([1, 1, 1, 1, 0],
          \<lparr>gain_list = g0 # g1 # g2 # g3 # g4 # rest, gain_index = 2, gain_count = 0,
           best_gain = 2, best_snr = Finite 10\<rparr>,
          [Set_Tuner_Gain g1, Reset_Buffer, Set_Tuner_Gain g2, Reset_Buffer,
           Set_Tuner_Gain g3, Reset_Buffer, Set_Tuner_Gain g4, Reset_Buffer,
           Set_Tuner_Gain g2, Reset_Buffer]) \<and>
   continues_before_stop (run_results (snr_callback_run
       (search_start 5 (g0 # g1 # g2 # g3 # g4 # rest))
       [Finite 5, Finite 8, Finite 10, Finite 9, Finite 4])) = 4"
  by (simp add: callback_eval run_results_def)

text \<open>
  Claim C1 as stated counts three "continue" results before the "stop". On the trace of
  the claim the count is not three.
\<close>

theorem three_continues_counterexample:
  "continues_before_stop (run_results (snr_callback_run
       (search_start 5 ([0, 9, 14, 27, 37] @ replicate 123 0))
       [Finite 5, Finite 8, Finite 10, Finite 9, Finite 4])) \<noteq> 3"
  by (simp add: callback_eval run_results_def)

text \<open>
  Claim C2. On a search in progress the callback returns 0 or 1. It returns 0 exactly when
  the current index is the last entry of the table (\<open>gain_count - 1\<close>) or the sample is
  less than half the best SNR as it stands after the best-update step. When it returns 0
  the current index is the recorded best index and the count is zero; otherwise the index
  has advanced by one, the count is unchanged and the result is 1.
\<close>

theorem snr_callback_stop_rule:
  assumes "searching s"
  shows "\<exists>r s' cmds. rtlsdr_snr_callback s snr = Inr (r, s', cmds) \<and>
           (r = 0 \<or> r = 1) \<and>
           best_gain s' = best_gain (choose_best s snr) \<and>
           best_snr s' = best_snr (choose_best s snr) \<and>
           ((r = 0) = (gain_index s = gain_count s - 1 \<or>
                       float_lt snr (float_half (best_snr (choose_best s snr))))) \<and>
           (if r = 0 then gain_index s' = best_gain (choose_best s snr) \<and> gain_count s' = 0
            else gain_index s' = gain_index s + 1 \<and> gain_count s' = gain_count s)"
proof (cases "gain_index s = gain_count s - 1 \<or> float_lt snr (float_half (best_snr (choose_best s snr)))")
  case True
  from callback_stop [OF assms True] True show ?thesis by simp
next
  case False
  then have f: "gain_index s \<noteq> gain_count s - 1" "\<not> float_lt snr (float_half (best_snr (choose_best s snr)))"
    by auto
  from callback_continue [OF assms f] f show ?thesis by simp
qed

theorem snr_callback_stop_rule_witness:
  "searching \<lparr>gain_list = replicate 128 7, gain_index = 3, gain_count = 5, best_gain = 2,
              best_snr = Finite 10\<rparr> \<and>
   (\<exists>s' cmds. rtlsdr_snr_callback
        \<lparr>gain_list = replicate 128 7, gain_index = 3, gain_count = 5, best_gain = 2,
         best_snr = Finite 10\<rparr> (Finite 4) = Inr (0, s', cmds) \<and>
      gain_index s' = 2 \<and> gain_count s' = 0)"
proof -
  let ?s = "\<lparr>gain_list = replicate 128 7, gain_index = 3, gain_count = 5, best_gain = 2,
             best_snr = Finite 10\<rparr>"
  have h: "searching ?s" by (simp add: searching_def)
  from snr_callback_stop_rule [OF h, of "Finite 4"] h show ?thesis
    by (auto simp: choose_best_def)
qed

text \<open>
  Claim C3. On a search in progress, a sample that is greater than or equal to the best
  SNR so far makes the current index the best index and the sample the best SNR; any other
  sample leaves both as they were. A sample equal to the best SNR so far therefore moves
  the best index to the current index, which is not below the old best index.
\<close>

theorem snr_callback_best_update:
  assumes "searching s"
  shows "\<exists>r s' cmds. rtlsdr_snr_callback s snr = Inr (r, s', cmds) \<and>
           (if float_ge snr (best_snr s)
            then best_gain s' = gain_index s \<and> best_snr s' = snr
            else best_gain s' = best_gain s \<and> best_snr s' = best_snr s) \<and>
           (snr = best_snr s \<and> snr \<noteq> NaN \<longrightarrow>
              best_gain s' = gain_index s \<and> best_gain s \<le> best_gain s')"
proof -
  have tie: "snr = best_snr s \<and> snr \<noteq> NaN \<longrightarrow> float_ge snr (best_snr s)"
    by (auto intro: float_ge_refl)
  from assms have le: "best_gain s \<le> gain_index s"
    by (simp add: searching_def)
  show ?thesis
  proof (cases "gain_index s = gain_count s - 1 \<or> float_lt snr (float_half (best_snr (choose_best s snr)))")
    case True
    from callback_stop [OF assms True] tie le show ?thesis
      by (auto simp: choose_best_best_gain choose_best_best_snr)
  next
    case False
    then have f: "gain_index s \<noteq> gain_count s - 1"
      "\<not> float_lt snr (float_half (best_snr (choose_best s snr)))"
      by auto
    from callback_continue [OF assms f] tie le show ?thesis
      by (auto simp: choose_best_best_gain choose_best_best_snr)
  qed
qed

theorem snr_callback_best_update_witness:
  "searching \<lparr>gain_list = replicate 128 7, gain_index = 3, gain_count = 5, best_gain = 2,
              best_snr = Finite 10\<rparr> \<and>
   (\<exists>r s' cmds. rtlsdr_snr_callback
        \<lparr>gain_list = replicate 128 7, gain_index = 3, gain_count = 5, best_gain = 2,
         best_snr = Finite 10\<rparr> (Finite 10) = Inr (r, s', cmds) \<and>
      best_gain s' = 3 \<and> best_snr s' = Finite 10)"
proof -
  let ?s = "\<lparr>gain_list = replicate 128 7, gain_index = 3, gain_count = 5, best_gain = 2,
             best_snr = Finite 10\<rparr>"
  have h: "searching ?s" by (simp add: searching_def)
  from snr_callback_best_update [OF h, of "Finite 10"] h show ?thesis
    by auto
qed

text \<open>
  Claim C4. A search started by \<open>main\<close> over a table of \<open>n\<close> gains (\<open>1 \<le> n \<le> 128\<close>) runs
  without fault on every sequence of samples. At most \<open>n - 1\<close> invocations return 1, in
  particular at most \<open>n\<close>; after \<open>n\<close> invocations the count is zero, whatever the samples
  were. While the search has not concluded, the current index equals the number of
  invocations made, so sample number \<open>k\<close> is taken at entry \<open>k\<close> of the table: every
  entry is visited at most once.
\<close>

theorem gain_search_terminates:
  assumes "1 \<le> n" and "n \<le> 128" and "length tab = 128"
  shows "\<exists>rs s' cmds. snr_callback_run (search_start n tab) snrs = Inr (rs, s', cmds) \<and>
           int (count_list rs 1) \<le> n - 1 \<and>
           (n \<le> int (length snrs) \<longrightarrow> gain_count s' = 0) \<and>
           (gain_count s' \<noteq> 0 \<longrightarrow>
              gain_index s' = int (length snrs) \<and> int (length snrs) < n)"
proof -
  have s: "searching (search_start n tab)"
    using assms by (rule searching_start)
  have i: "gain_index (search_start n tab) = 0" "gain_count (search_start n tab) = n"
    by (simp_all add: search_start_def initial_search_def)
  from run_searching [OF s, of snrs] obtain rs s' cmds where
    run: "snr_callback_run (search_start n tab) snrs = Inr (rs, s', cmds)" and
    cnt: "int (count_list rs 1) \<le> n - 1" and
    fin: "n \<le> int (length snrs) \<longrightarrow> gain_count s' = 0" and
    act: "gain_count s' \<noteq> 0 \<longrightarrow> searching s' \<and> gain_count s' = n \<and>
            gain_index s' = int (length snrs)"
    unfolding i by auto
  from act have "gain_count s' \<noteq> 0 \<longrightarrow> gain_index s' = int (length snrs) \<and> int (length snrs) < n"
    by (auto simp: searching_def)
  with run cnt fin show ?thesis by blast
qed

theorem gain_search_terminates_witness:
  "(1::int) \<le> 5 \<and> (5::int) \<le> 128 \<and> length (replicate 128 (7::int)) = 128 \<and>
   (\<exists>rs s' cmds. snr_callback_run (search_start 5 (replicate 128 7))
        [NaN, NaN, NaN, NaN, NaN] = Inr (rs, s', cmds) \<and>
      int (count_list rs 1) \<le> 4 \<and> gain_count s' = 0)"
proof -
  have h: "(1::int) \<le> 5" "(5::int) \<le> 128" "length (replicate 128 (7::int)) = 128"
    by simp_all
  from gain_search_terminates [OF h, of "[NaN, NaN, NaN, NaN, NaN]"] show ?thesis
    by auto
qed

text \<open>
  Claim C5. On a search in progress, an invocation returns 1 exactly when it leaves the
  search in progress, and then the current index has grown by exactly one. Over any
  sequence of invocations after which the search has not concluded, every invocation
  returned 1 and the index has grown by the number of invocations: before the conclusion
  the index only ever increases.
\<close>

theorem gain_index_monotone:
  assumes "searching s"
  shows "(\<exists>r s' cmds. rtlsdr_snr_callback s snr = Inr (r, s', cmds) \<and>
            (r = 1) = (gain_count s' \<noteq> 0) \<and>
            (r = 1 \<longrightarrow> gain_index s' = gain_index s + 1)) \<and>
         (\<exists>rs s' cmds. snr_callback_run s snrs = Inr (rs, s', cmds) \<and>
            (gain_count s' \<noteq> 0 \<longrightarrow>
               rs = replicate (length snrs) 1 \<and>
               gain_index s' = gain_index s + int (length snrs)))"
proof
  show "\<exists>r s' cmds. rtlsdr_snr_callback s snr = Inr (r, s', cmds) \<and>
            (r = 1) = (gain_count s' \<noteq> 0) \<and>
            (r = 1 \<longrightarrow> gain_index s' = gain_index s + 1)"
  proof (cases "gain_index s = gain_count s - 1 \<or> float_lt snr (float_half (best_snr (choose_best s snr)))")
    case True
    from callback_stop [OF assms True] show ?thesis by simp
  next
    case False
    then have f: "gain_index s \<noteq> gain_count s - 1"
      "\<not> float_lt snr (float_half (best_snr (choose_best s snr)))"
      by auto
    from callback_continue [OF assms f] searching_active [OF assms] show ?thesis by simp
  qed
next
  from run_searching [OF assms, of snrs]
  show "\<exists>rs s' cmds. snr_callback_run s snrs = Inr (rs, s', cmds) \<and>
            (gain_count s' \<noteq> 0 \<longrightarrow>
               rs = replicate (length snrs) 1 \<and>
               gain_index s' = gain_index s + int (length snrs))"
    by blast
qed

theorem gain_index_monotone_witness:
  "searching (search_start 5 (replicate 128 7)) \<and>
   (\<exists>s' cmds. rtlsdr_snr_callback (search_start 5 (replicate 128 7)) (Finite 5) =
        Inr (1, s', cmds) \<and> gain_index s' = 1) \<and>
   (\<exists>rs s' cmds. snr_callback_run (search_start 5 (replicate 128 7))
        [Finite 5, Finite 8, Finite 10] = Inr (rs, s', cmds) \<and>
        gain_count s' = 5 \<and> gain_index s' = 3)"
proof -
  have h: "searching (search_start 5 (replicate 128 7))"
    by (simp add: searching_start)
  have c: "rtlsdr_snr_callback (search_start 5 (replicate 128 7)) (Finite 5) =
      Inr (1, (choose_best (search_start 5 (replicate 128 7)) (Finite 5))\<lparr>gain_index := 1\<rparr>,
           [Set_Tuner_Gain 7, Reset_Buffer])"
    by (simp add: callback_eval)
  have d: "\<exists>rs s' cmds. snr_callback_run (search_start 5 (replicate 128 7))
        [Finite 5, Finite 8, Finite 10] = Inr (rs, s', cmds) \<and> gain_count s' = 5"
    by (simp add: callback_eval)
  from gain_index_monotone [OF h, of "Finite 5" "[Finite 5, Finite 8, Finite 10]"] h c d
  show ?thesis by (auto simp: search_start_def initial_search_def)
qed

text \<open>
  Claim C6. Once the count is zero, every invocation of any further sequence returns 0,
  issues no command and leaves the whole search state (table, indices, best SNR, count) as
  it was.
\<close>

theorem concluded_is_terminal:
  assumes "gain_count s = 0"
  shows "snr_callback_run s snrs = Inr (replicate (length snrs) 0, s, [])"
  using assms by (rule run_concluded)

theorem concluded_is_terminal_witness:
  "gain_count \<lparr>gain_list = replicate 128 7, gain_index = 2, gain_count = 0, best_gain = 2,
               best_snr = Finite 10\<rparr> = 0 \<and>
   snr_callback_run \<lparr>gain_list = replicate 128 7, gain_index = 2, gain_count = 0,
                      best_gain = 2, best_snr = Finite 10\<rparr> [Finite 50, NaN, Finite 1] =
     Inr ([0, 0, 0],
          \<lparr>gain_list = replicate 128 7, gain_index = 2, gain_count = 0, best_gain = 2,
           best_snr = Finite 10\<rparr>, [])"
  using concluded_is_terminal
    [of "\<lparr>gain_list = replicate 128 7, gain_index = 2, gain_count = 0, best_gain = 2,
          best_snr = Finite 10\<rparr>" "[Finite 50, NaN, Finite 1]"]
  by (simp add: numeral_3_eq_3)

text \<open>
  Claim C7. \<open>main\<close> registers the SNR callback exactly when \<open>gain\<close> is \<open>INT_MIN\<close> (no gain
  was stored by \<open>-g\<close>) and the tuner reports a positive number of gains. In that case it
  asks for the gains, registers the callback and applies the first table entry, and the
  statics are those of a search over the reported table. With \<open>gain = INT_MIN\<close> and no
  gains reported it only asks for the gains. With any other \<open>gain\<close> it applies that gain
  and nothing else: no callback is registered and the statics keep their initial values.
\<close>

theorem gain_search_entry:
  assumes "length (tuner_gains_out env) = 128"
  shows "snr_cb (end_state (select_gain gain env initial_main)) =
           (gain = INT_MIN \<and> 0 < tuner_gains_ret env) \<and>
         trace (end_state (select_gain gain env initial_main)) =
           (if gain \<noteq> INT_MIN then [Set_Tuner_Gain gain]
            else if 0 < tuner_gains_ret env
              then [Get_Tuner_Gains, Set_Snr_Callback, Set_Tuner_Gain (tuner_gains_out env ! 0)]
              else [Get_Tuner_Gains]) \<and>
         search (end_state (select_gain gain env initial_main)) =
           (if gain \<noteq> INT_MIN then initial_search
            else search_start (tuner_gains_ret env) (tuner_gains_out env))"
proof -
  from assms have "tuner_gains_out env \<noteq> []"
    by auto
  then show ?thesis
    by (simp add: select_gain_def Let_def initial_main_def device_call_def gain_at_def
          search_start_def emit_def)
qed

theorem gain_search_entry_witness:
  "length (tuner_gains_out
      \<lparr>tuner_gains_ret = 3, tuner_gains_out = [0, 9, 14] @ replicate 125 0, set_gain_err = 0,
       reset_err = 0, sync_blocks = [], async_err = 0, close_err = 0\<rparr>) = 128 \<and>
   snr_cb (end_state (select_gain INT_MIN
      \<lparr>tuner_gains_ret = 3, tuner_gains_out = [0, 9, 14] @ replicate 125 0, set_gain_err = 0,
       reset_err = 0, sync_blocks = [], async_err = 0, close_err = 0\<rparr> initial_main)) \<and>
   trace (end_state (select_gain INT_MIN
      \<lparr>tuner_gains_ret = 3, tuner_gains_out = [0, 9, 14] @ replicate 125 0, set_gain_err = 0,
       reset_err = 0, sync_blocks = [], async_err = 0, close_err = 0\<rparr> initial_main)) =
     [Get_Tuner_Gains, Set_Snr_Callback, Set_Tuner_Gain 0] \<and>
   \<not> snr_cb (end_state (select_gain 200
      \<lparr>tuner_gains_ret = 3, tuner_gains_out = [0, 9, 14] @ replicate 125 0, set_gain_err = 0,
       reset_err = 0, sync_blocks = [], async_err = 0, close_err = 0\<rparr> initial_main)) \<and>
   trace (end_state (select_gain 200
      \<lparr>tuner_gains_ret = 3, tuner_gains_out = [0, 9, 14] @ replicate 125 0, set_gain_err = 0,
       reset_err = 0, sync_blocks = [], async_err = 0, close_err = 0\<rparr> initial_main)) =
     [Set_Tuner_Gain 200]"
proof -
  let ?env = "\<lparr>tuner_gains_ret = 3, tuner_gains_out = [0, 9, 14] @ replicate 125 0,
       set_gain_err = 0, reset_err = 0, sync_blocks = [], async_err = 0, close_err = 0\<rparr>"
  have h: "length (tuner_gains_out ?env) = 128" by simp
  have g: "(200::int) \<noteq> INT_MIN" by (simp add: INT_MIN_def)
  from gain_search_entry [OF h, of INT_MIN] gain_search_entry [OF h, of 200] h g
  show ?thesis by simp
qed

text \<open>
  Claim C8. The read loop ends normally only with a zero count, and \<open>rtlsdr_read_async\<close>
  has not been called by then. If \<open>rtlsdr_read_async\<close> occurs in the trace of \<open>main\<close> at
  all, the read loop has ended normally before it, the count is zero, and no blocking read
  and no second asynchronous read follows it. In the loop, a nonzero count makes the next
  event a blocking read (followed by no asynchronous read inside the loop), and a zero
  count ends the loop without a read.
\<close>

theorem async_only_after_search:
  "(sync_phase gain env = Inr st \<longrightarrow>
      gain_count (search st) = 0 \<and> Read_Async \<notin> set (trace st)) \<and>
   (Read_Async \<in> set (trace (end_state (main_rtlsdr gain env))) \<longrightarrow>
      gain_count (search (end_state (main_rtlsdr gain env))) = 0 \<and>
      (\<exists>st' post. sync_phase gain env = Inr st' \<and>
         trace (end_state (main_rtlsdr gain env)) = trace st' @ Read_Async # post \<and>
         Read_Sync \<notin> set post \<and> Read_Async \<notin> set post)) \<and>
   (gain_count (search st0) \<noteq> 0 \<longrightarrow>
      (\<exists>evs. trace (end_state (read_loop st0 ((err, snrs) # blocks))) =
               trace st0 @ Read_Sync # evs \<and> Read_Async \<notin> set evs)) \<and>
   (gain_count (search st0) = 0 \<longrightarrow> read_loop st0 blocks = Inr st0)"
proof (intro conjI impI)
  assume "sync_phase gain env = Inr st"
  then show "gain_count (search st) = 0" by (rule sync_phase_exit)
next
  assume "sync_phase gain env = Inr st"
  with sync_phase_trace [of gain env] show "Read_Async \<notin> set (trace st)" by simp
next
  assume a: "Read_Async \<in> set (trace (end_state (main_rtlsdr gain env)))"
  have "\<exists>st'. sync_phase gain env = Inr st'"
  proof (cases "sync_phase gain env")
    case (Inl x)
    with main_rtlsdr_failed [OF Inl] sync_phase_trace [of gain env] a show ?thesis by simp
  next
    case (Inr st')
    then show ?thesis by blast
  qed
  then obtain st' where s: "sync_phase gain env = Inr st'" by blast
  from main_rtlsdr_trace [OF s] sync_phase_exit [OF s]
  show "gain_count (search (end_state (main_rtlsdr gain env))) = 0" by simp
  from main_rtlsdr_trace [OF s] s
  show "\<exists>st' post. sync_phase gain env = Inr st' \<and>
         trace (end_state (main_rtlsdr gain env)) = trace st' @ Read_Async # post \<and>
         Read_Sync \<notin> set post \<and> Read_Async \<notin> set post"
    by auto
next
  assume active: "gain_count (search st0) \<noteq> 0"
  let ?rest = "and_then (and_then (Inr (emit Read_Sync st0)) (input_cb snrs))
                 (\<lambda>st'. read_loop st' blocks)"
  show "\<exists>evs. trace (end_state (read_loop st0 ((err, snrs) # blocks))) =
               trace st0 @ Read_Sync # evs \<and> Read_Async \<notin> set evs"
  proof (cases "err = 0")
    case False
    with active show ?thesis by (simp add: device_call_def)
  next
    case True
    from input_cb_trace [of snrs "emit Read_Sync st0"] obtain cmds where
      c: "trace (end_state (input_cb snrs (emit Read_Sync st0))) = trace st0 @ Read_Sync # cmds"
        "list_all gain_command cmds"
      by auto
    show ?thesis
    proof (cases "input_cb snrs (emit Read_Sync st0)")
      case (Inl y)
      with active True c show ?thesis
        by (cases y) (auto simp: device_call_def list_all_iff gain_command_def)
    next
      case (Inr st2)
      from read_loop_trace [of st2 blocks] obtain evs where
        e: "trace (end_state (read_loop st2 blocks)) = trace st2 @ evs" "list_all loop_event evs"
        by blast
      from active True Inr c e
      have "trace (end_state (read_loop st0 ((err, snrs) # blocks))) =
              trace st0 @ Read_Sync # (cmds @ evs)"
        by (simp add: device_call_def)
      moreover from c(2) e(2) have "Read_Async \<notin> set (cmds @ evs)"
        by (auto simp: list_all_iff loop_event_def gain_command_def)
      ultimately show ?thesis by blast
    qed
  qed
next
  assume "gain_count (search st0) = 0"
  then show "read_loop st0 blocks = Inr st0" by (cases blocks) auto
qed

theorem async_only_after_search_witness:
  "Read_Async \<in> set (trace (end_state (main_rtlsdr INT_MIN
      \<lparr>tuner_gains_ret = 3, tuner_gains_out = [0, 9, 14] @ replicate 125 0, set_gain_err = 0,
       reset_err = 0, sync_blocks = [(0, []), (0, [Finite 5]), (0, [Finite 2])],
       async_err = 0, close_err = 0\<rparr>))) \<and>
   gain_count (search (end_state (main_rtlsdr INT_MIN
      \<lparr>tuner_gains_ret = 3, tuner_gains_out = [0, 9, 14] @ replicate 125 0, set_gain_err = 0,
       reset_err = 0, sync_blocks = [(0, []), (0, [Finite 5]), (0, [Finite 2])],
       async_err = 0, close_err = 0\<rparr>))) = 0 \<and>
   (\<exists>st'. sync_phase INT_MIN
      \<lparr>tuner_gains_ret = 3, tuner_gains_out = [0, 9, 14] @ replicate 125 0, set_gain_err = 0,
       reset_err = 0, sync_blocks = [(0, []), (0, [Finite 5]), (0, [Finite 2])],
       async_err = 0, close_err = 0\<rparr> = Inr st' \<and>
      gain_count (search st') = 0 \<and> Read_Async \<notin> set (trace st')) \<and>
   gain_count (search (initial_main\<lparr>search := search_start 3 (replicate 128 7)\<rparr>)) \<noteq> 0 \<and>
   (\<exists>evs. trace (end_state (read_loop
        (initial_main\<lparr>search := search_start 3 (replicate 128 7)\<rparr>) [(0, [Finite 5])])) =
      trace (initial_main\<lparr>search := search_start 3 (replicate 128 7)\<rparr>) @ Read_Sync # evs) \<and>
   read_loop initial_main [(0, [Finite 5])] = Inr initial_main"
proof -
  let ?env = "\<lparr>tuner_gains_ret = 3, tuner_gains_out = [0, 9, 14] @ replicate 125 0,
       set_gain_err = 0, reset_err = 0,
       sync_blocks = [(0, []), (0, [Finite 5]), (0, [Finite 2])],
       async_err = 0, close_err = 0\<rparr>"
  let ?st0 = "initial_main\<lparr>search := search_start 3 (replicate 128 7)\<rparr>"
  have a: "Read_Async \<in> set (trace (end_state (main_rtlsdr INT_MIN ?env)))"
    by (simp add: main_eval callback_eval)
  have b: "gain_count (search ?st0) \<noteq> 0"
    by (simp add: search_start_def)
  have c: "gain_count (search initial_main) = 0"
    by (simp add: initial_main_def initial_search_def)
  note t = async_only_after_search [of INT_MIN ?env _ ?st0 0 "[Finite 5]" "[]"]
    async_only_after_search [of INT_MIN ?env _ initial_main 0 "[Finite 5]" "[(0, [Finite 5])]"]
  from a b c t show ?thesis
    by blast
qed

text \<open>
  Claim C9. With a zero count the callback returns 0 at once, with the statics unchanged
  and no device command issued. This is the state \<open>main\<close> leaves behind when an explicit
  gain is given (\<open>gain \<noteq> INT_MIN\<close>): the statics still have their initial values.
\<close>

theorem idle_callback_no_effect:
  "(gain_count s = 0 \<longrightarrow> rtlsdr_snr_callback s snr = Inr (0, s, [])) \<and>
   (gain \<noteq> INT_MIN \<longrightarrow>
      search (end_state (select_gain gain env initial_main)) = initial_search \<and>
      rtlsdr_snr_callback (search (end_state (select_gain gain env initial_main))) snr =
        Inr (0, initial_search, []))"
proof -
  have "gain \<noteq> INT_MIN \<Longrightarrow>
      search (end_state (select_gain gain env initial_main)) = initial_search"
    by (simp add: select_gain_def device_call_def end_state_def emit_def initial_main_def)
  moreover have "rtlsdr_snr_callback initial_search snr = Inr (0, initial_search, [])"
    by (rule callback_concluded) (simp add: initial_search_def)
  ultimately show ?thesis
    by (simp add: callback_concluded)
qed

theorem idle_callback_no_effect_witness:
  "rtlsdr_snr_callback \<lparr>gain_list = replicate 128 7, gain_index = 2, gain_count = 0,
        best_gain = 2, best_snr = Finite 10\<rparr> (Finite 50) =
     Inr (0, \<lparr>gain_list = replicate 128 7, gain_index = 2, gain_count = 0,
               best_gain = 2, best_snr = Finite 10\<rparr>, []) \<and>
   rtlsdr_snr_callback (search (end_state (select_gain 200
        \<lparr>tuner_gains_ret = 5, tuner_gains_out = replicate 128 7, set_gain_err = 0,
         reset_err = 0, sync_blocks = [], async_err = 0, close_err = 0\<rparr> initial_main)))
        (Finite 50) =
     Inr (0, initial_search, [])"
proof -
  have c: "gain_count \<lparr>gain_list = replicate 128 7, gain_index = 2, gain_count = 0,
        best_gain = 2, best_snr = Finite 10\<rparr> = 0"
    by simp
  have g: "(200::int) \<noteq> INT_MIN"
    by (simp add: INT_MIN_def)
  from c g idle_callback_no_effect
    [of "\<lparr>gain_list = replicate 128 7, gain_index = 2, gain_count = 0, best_gain = 2,
          best_snr = Finite 10\<rparr>" "Finite 50" 200
        "\<lparr>tuner_gains_ret = 5, tuner_gains_out = replicate 128 7, set_gain_err = 0,
          reset_err = 0, sync_blocks = [], async_err = 0, close_err = 0\<rparr>"]
  show ?thesis by blast
qed

text \<open>
  Claim C10. On a search in progress every invocation, whichever result it returns, issues
  exactly two commands: it sets the tuner gain to the table entry at the current index as
  the invocation leaves it, then resets the buffer. The index is inside the table. When
  the result is 0 that index is the recorded best index, so the gain applied at the
  conclusion is the best gain.
\<close>

theorem callback_applies_gain:
  assumes "searching s"
  shows "\<exists>r s' g. rtlsdr_snr_callback s snr = Inr (r, s', [Set_Tuner_Gain g, Reset_Buffer]) \<and>
           gain_list s' = gain_list s \<and>
           0 \<le> gain_index s' \<and> gain_index s' < int (length (gain_list s')) \<and>
           gain_at (gain_list s') (gain_index s') = Inr g \<and>
           (r = 0 \<longrightarrow> gain_index s' = best_gain s' \<and> gain_at (gain_list s') (best_gain s') = Inr g)"
proof (cases "gain_index s = gain_count s - 1 \<or> float_lt snr (float_half (best_snr (choose_best s snr)))")
  case True
  from searching_choose_best [OF assms, of snr]
  have "0 \<le> best_gain (choose_best s snr)" "best_gain (choose_best s snr) < int (length (gain_list s))"
    by (auto simp: searching_def)
  with callback_stop [OF assms True] show ?thesis
    by (simp add: gain_at_in_range)
next
  case False
  then have f: "gain_index s \<noteq> gain_count s - 1"
    "\<not> float_lt snr (float_half (best_snr (choose_best s snr)))"
    by auto
  from assms f(1) have "0 \<le> gain_index s + 1" "gain_index s + 1 < int (length (gain_list s))"
    by (auto simp: searching_def)
  with callback_continue [OF assms f] show ?thesis
    by (simp add: gain_at_in_range)
qed

theorem callback_applies_gain_witness:
  "searching \<lparr>gain_list = [0, 9, 14, 27, 37] @ replicate 123 0, gain_index = 3,
              gain_count = 5, best_gain = 2, best_snr = Finite 10\<rparr> \<and>
   (\<exists>r s' g. rtlsdr_snr_callback
        \<lparr>gain_list = [0, 9, 14, 27, 37] @ replicate 123 0, gain_index = 3, gain_count = 5,
         best_gain = 2, best_snr = Finite 10\<rparr> (Finite 4) =
          Inr (r, s', [Set_Tuner_Gain g, Reset_Buffer]) \<and>
      gain_at (gain_list s') (gain_index s') = Inr g)"
proof -
  let ?s = "\<lparr>gain_list = [0, 9, 14, 27, 37] @ replicate 123 0, gain_index = 3,
             gain_count = 5, best_gain = 2, best_snr = Finite 10\<rparr>"
  have h: "searching ?s" by (simp add: searching_def)
  from callback_applies_gain [OF h, of "Finite 4"] h show ?thesis
    by blast
qed

end
